theory Spec2Isabelle
  imports Complex_Main "HOL-Library.AList"
begin

section \<open>Data model\<close>

text \<open>
  The tables of the order subsystem (\<^verbatim>\<open>models/user.py\<close>, \<^verbatim>\<open>models/product.py\<close>,
  \<^verbatim>\<open>models/order.py\<close>). Python's \<^verbatim>\<open>int\<close> is \<open>int\<close>; the \<^verbatim>\<open>Float\<close> columns
  (\<^verbatim>\<open>price\<close>, \<^verbatim>\<open>unit_price\<close>, \<^verbatim>\<open>total_amount\<close>) are modelled as exact reals, so
  rounding of IEEE doubles is outside the model. A row is looked up by its primary key,
  so the key of a user or product is the key of the map that stores it; \<^verbatim>\<open>Order.id\<close> is
  the field \<open>ident\<close> (\<open>id\<close> is taken in HOL).
\<close>

record user =
  username :: string

record product =
  name :: string
  price :: real
  stock_quantity :: int

record order_item =
  item_id :: int
  order_id :: int
  product_id :: int
  quantity :: int
  unit_price :: real

record order =
  ident :: int
  user_id :: int
  status :: string
  total_amount :: real
  items :: "order_item list"

text \<open>
  An item of a request is the dict \<^verbatim>\<open>{"product_id": p, "quantity": q}\<close>, written as the
  pair \<open>(p, q)\<close>.
\<close>

type_synonym item_request = "int \<times> int"

text \<open>
  The database as one session sees it. \<open>orders\<close> is kept in insertion order, each order
  together with its item rows (the \<^verbatim>\<open>Order.items\<close> relationship); the two counters are
  the autoincrement sequences of \<^verbatim>\<open>orders.id\<close> and \<^verbatim>\<open>order_items.id\<close>.
\<close>

record db =
  users :: "int \<rightharpoonup> user"
  products :: "int \<rightharpoonup> product"
  orders :: "order list"
  next_order_id :: int
  next_item_id :: int

text \<open>
  Every failure of the code is a \<^verbatim>\<open>ValueError\<close> with a message; one constructor per
  message (pydantic's \<^verbatim>\<open>ValidationError\<close> is a \<^verbatim>\<open>ValueError\<close> too).
\<close>

datatype error =
    UserNotFound int
  | EmptyOrder
  | BadQuantity
  | ProductNotFound int
  | InsufficientStock
  | OrderNotFound int
  | InvalidStatus
  | OrderIdRequired
  | StatusRequired
  | ValidationError

text \<open>
  A call returns its result, or the error it raised, and the database it leaves behind.
  Work that was not committed when an exception leaves the session is discarded.
\<close>

type_synonym 'a outcome = "(error + 'a) \<times> db"

section \<open>Product repository\<close>

definition product_repository_get_by_id :: "db \<Rightarrow> int \<Rightarrow> product option" where
  "product_repository_get_by_id s pid = products s pid"

text \<open>
  \<^verbatim>\<open>ProductRepository.update(product_id, **patch)\<close> sets every attribute the keyword
  arguments name; a missing product is a no-op. The order service only ever passes
  \<^verbatim>\<open>stock_quantity\<close>.
\<close>

record product_patch =
  patch_name :: "string option"
  patch_price :: "real option"
  patch_stock_quantity :: "int option"

definition set_attrs :: "product \<Rightarrow> product_patch \<Rightarrow> product" where
  "set_attrs p pp =
     (let p1 = (case patch_name pp of None \<Rightarrow> p | Some v \<Rightarrow> p\<lparr>name := v\<rparr>);
          p2 = (case patch_price pp of None \<Rightarrow> p1 | Some v \<Rightarrow> p1\<lparr>price := v\<rparr>)
      in (case patch_stock_quantity pp of None \<Rightarrow> p2 | Some v \<Rightarrow> p2\<lparr>stock_quantity := v\<rparr>))"

definition product_repository_update :: "db \<Rightarrow> int \<Rightarrow> product_patch \<Rightarrow> db" where
  "product_repository_update s pid pp =
     (case product_repository_get_by_id s pid of
        None \<Rightarrow> s
      | Some p \<Rightarrow> s\<lparr>products := (products s)(pid \<mapsto> set_attrs p pp)\<rparr>)"

definition stock_only :: "int \<Rightarrow> product_patch" where
  "stock_only v = \<lparr>patch_name = None, patch_price = None, patch_stock_quantity = Some v\<rparr>"

section \<open>Order repository: create and get\<close>

text \<open>
  The loop of \<^verbatim>\<open>OrderRepository.create\<close>: one row per requested item, priced at the
  product's current price, the total accumulated from the left. Row ids are given out in
  insertion order starting at \<open>nid\<close>.
\<close>

fun create_rows ::
  "(int \<rightharpoonup> product) \<Rightarrow> int \<Rightarrow> int \<Rightarrow> item_request list \<Rightarrow> order_item list \<Rightarrow> real
     \<Rightarrow> error + (order_item list \<times> real)" where
  "create_rows ps oid nid [] rows tot = Inr (rows, tot)"
| "create_rows ps oid nid ((pid, qty) # its) rows tot =
     (case ps pid of
        None \<Rightarrow> Inl (ProductNotFound pid)
      | Some p \<Rightarrow>
          create_rows ps oid nid its
            (rows @ [\<lparr>item_id = nid + int (length rows), order_id = oid, product_id = pid,
                      quantity = qty, unit_price = price p\<rparr>])
            (tot + real_of_int qty * price p))"

definition order_repository_create :: "db \<Rightarrow> int \<Rightarrow> item_request list \<Rightarrow> order outcome" where
  "order_repository_create s uid its =
     (case users s uid of
        None \<Rightarrow> (Inl (UserNotFound uid), s)
      | Some u \<Rightarrow>
          (case create_rows (products s) (next_order_id s) (next_item_id s) its [] 0 of
             Inl e \<Rightarrow> (Inl e, s)
           | Inr (rows, tot) \<Rightarrow>
               (let ord = \<lparr>ident = next_order_id s, user_id = uid, status = ''pending'',
                           total_amount = tot, items = rows\<rparr>
                in (Inr ord,
                    s\<lparr>orders := orders s @ [ord],
                      next_order_id := next_order_id s + 1,
                      next_item_id := next_item_id s + int (length rows)\<rparr>))))"

definition order_repository_get_by_id :: "db \<Rightarrow> int \<Rightarrow> order option" where
  "order_repository_get_by_id s oid = find (\<lambda>ord. ident ord = oid) (orders s)"

section \<open>Order service: create_order\<close>

text \<open>Lines 34-36: every quantity is checked before any product is looked at.\<close>

fun quantities_positive :: "item_request list \<Rightarrow> bool" where
  "quantities_positive [] = True"
| "quantities_positive ((pid, qty) # its) = (if qty \<le> 0 then False else quantities_positive its)"

text \<open>
  Lines 41-48: the validation scan. \<^verbatim>\<open>updated_products\<close> holds the product objects; the
  session hands out one object per primary key, so an object is named by its key.
\<close>

fun validate_items ::
  "(int \<rightharpoonup> product) \<Rightarrow> item_request list \<Rightarrow> real \<Rightarrow> (int \<times> int) list
     \<Rightarrow> error + (real \<times> (int \<times> int) list)" where
  "validate_items ps [] tot updated_products = Inr (tot, updated_products)"
| "validate_items ps ((pid, qty) # its) tot updated_products =
     (case ps pid of
        None \<Rightarrow> Inl (ProductNotFound pid)
      | Some p \<Rightarrow>
          if stock_quantity p < qty then Inl InsufficientStock
          else validate_items ps its (tot + price p * real_of_int qty)
                 (updated_products @ [(pid, qty)]))"

text \<open>
  Lines 50-54: \<^verbatim>\<open>product.stock_quantity -= quantity\<close> on the live object, then the
  persisted write.
\<close>

fun decrement_stock :: "db \<Rightarrow> (int \<times> int) list \<Rightarrow> db" where
  "decrement_stock s [] = s"
| "decrement_stock s ((pid, qty) # rest) =
     decrement_stock
       (case products s pid of
          None \<Rightarrow> s
        | Some p \<Rightarrow> product_repository_update s pid (stock_only (stock_quantity p - qty)))
       rest"

definition create_order :: "db \<Rightarrow> int \<Rightarrow> item_request list \<Rightarrow> order outcome" where
  "create_order s uid its =
     (case users s uid of
        None \<Rightarrow> (Inl (UserNotFound uid), s)
      | Some u \<Rightarrow>
          if its = [] then (Inl EmptyOrder, s)
          else if \<not> quantities_positive its then (Inl BadQuantity, s)
          else
            (case validate_items (products s) its 0 [] of
               Inl e \<Rightarrow> (Inl e, s)
             | Inr (tot, updated_products) \<Rightarrow>
                 order_repository_create (decrement_stock s updated_products) uid its))"

section \<open>Order repository: list\<close>

text \<open>
  \<^verbatim>\<open>OrderRepository.list\<close>: both filters are optional; the count is taken over all
  matching rows, the page with \<^verbatim>\<open>LIMIT\<close> and \<^verbatim>\<open>OFFSET\<close>, which SQL defines for
  non-negative numbers.
\<close>

definition matching :: "int option \<Rightarrow> string option \<Rightarrow> order list \<Rightarrow> order list" where
  "matching uid st os =
     (let os1 = (case uid of None \<Rightarrow> os | Some u \<Rightarrow> filter (\<lambda>ord. user_id ord = u) os)
      in (case st of None \<Rightarrow> os1 | Some t \<Rightarrow> filter (\<lambda>ord. status ord = t) os1))"

definition order_repository_list ::
  "db \<Rightarrow> nat \<Rightarrow> nat \<Rightarrow> int option \<Rightarrow> string option \<Rightarrow> nat \<times> order list" where
  "order_repository_list s limit offset uid st =
     (let all_rows = matching uid st (orders s)
      in (length all_rows, take limit (drop offset all_rows)))"

section \<open>Order repository: update\<close>

text \<open>
  The keyword arguments of \<^verbatim>\<open>OrderRepository.update\<close> and the \<^verbatim>\<open>update_data\<close> dict of
  the service: a key that is missing or \<^verbatim>\<open>None\<close> is \<open>None\<close>. The status is the string
  the service works with (\<^verbatim>\<open>status.value\<close> of the enum, or \<^verbatim>\<open>str(status)\<close>).
\<close>

record patch =
  patch_status :: "string option"
  patch_items :: "item_request list option"

text \<open>
  \<^verbatim>\<open>{int(i.product_id): i for i in order.items}\<close>: a Python dict keeps the position of
  a key's first insertion and the value of its last one, as \<open>AList.update\<close> does. The
  value is a reference to the row object, written as the row's position in
  \<^verbatim>\<open>order.items\<close>.
\<close>

definition existing_by_product :: "order_item list \<Rightarrow> (int \<times> nat) list" where
  "existing_by_product rows =
     fold (\<lambda>(i, r) d. AList.update (product_id r) i d) (enumerate 0 rows) []"

text \<open>
  Lines 96-121: the loop over the incoming items. \<open>rows\<close> are the order's existing rows,
  changed in place through the dict; \<open>added\<close> are the rows created by the loop.
\<close>

fun reconcile ::
  "(int \<rightharpoonup> product) \<Rightarrow> int \<Rightarrow> int \<Rightarrow> (int \<times> nat) list \<Rightarrow> item_request list
     \<Rightarrow> order_item list \<Rightarrow> order_item list \<Rightarrow> int set \<Rightarrow> real
     \<Rightarrow> error + (order_item list \<times> order_item list \<times> int set \<times> real)" where
  "reconcile ps oid nid d [] rows added seen tot = Inr (rows, added, seen, tot)"
| "reconcile ps oid nid d ((pid, qty) # nis) rows added seen tot =
     (case ps pid of
        None \<Rightarrow> Inl (ProductNotFound pid)
      | Some p \<Rightarrow>
          (case map_of d pid of
             Some i \<Rightarrow>
               reconcile ps oid nid d nis
                 (rows[i := (rows ! i)\<lparr>quantity := qty, unit_price := price p\<rparr>])
                 added (insert pid seen) (tot + real_of_int qty * price p)
           | None \<Rightarrow>
               reconcile ps oid nid d nis rows
                 (added @ [\<lparr>item_id = nid + int (length added), order_id = oid,
                            product_id = pid, quantity = qty, unit_price = price p\<rparr>])
                 (insert pid seen) (tot + real_of_int qty * price p)))"

text \<open>Lines 123-125: the rows of the dict whose key was not seen are deleted.\<close>

definition deleted_rows :: "(int \<times> nat) list \<Rightarrow> int set \<Rightarrow> nat list" where
  "deleted_rows d seen = map snd (filter (\<lambda>(pid, i). pid \<notin> seen) d)"

definition remaining_rows :: "order_item list \<Rightarrow> nat list \<Rightarrow> order_item list" where
  "remaining_rows rows del = map snd (filter (\<lambda>(i, r). i \<notin> set del) (enumerate 0 rows))"

definition store_order :: "db \<Rightarrow> order \<Rightarrow> db" where
  "store_order s ord' =
     s\<lparr>orders := map (\<lambda>ord. if ident ord = ident ord' then ord' else ord) (orders s)\<rparr>"

text \<open>
  \<^verbatim>\<open>OrderRepository.update\<close>. After the commit the order is reloaded with its item rows:
  the surviving rows, then the new ones.
\<close>

definition order_repository_update :: "db \<Rightarrow> int \<Rightarrow> patch \<Rightarrow> order option outcome" where
  "order_repository_update s oid pt =
     (case order_repository_get_by_id s oid of
        None \<Rightarrow> (Inr None, s)
      | Some ord \<Rightarrow>
          (let ord1 = (case patch_status pt of None \<Rightarrow> ord | Some st \<Rightarrow> ord\<lparr>status := st\<rparr>)
           in (case patch_items pt of
                 None \<Rightarrow> (Inr (Some ord1), store_order s ord1)
               | Some new_items \<Rightarrow>
                   (case reconcile (products s) (ident ord) (next_item_id s)
                           (existing_by_product (items ord)) new_items (items ord) [] {} 0 of
                      Inl e \<Rightarrow> (Inl e, s)
                    | Inr (rows, added, seen, tot) \<Rightarrow>
                        (let del = deleted_rows (existing_by_product (items ord)) seen;
                             ord2 = ord1\<lparr>items := remaining_rows rows del @ added,
                                         total_amount := tot\<rparr>
                         in (Inr (Some ord2),
                             (store_order s ord2)
                               \<lparr>next_item_id := next_item_id s + int (length added)\<rparr>))))))"

section \<open>Order service: update\<close>

definition valid_statuses :: "string list" where
  "valid_statuses = [''pending'', ''processing'', ''shipped'', ''delivered'', ''cancelled'']"

text \<open>Lines 104-110: the restitution loop; a product that is gone is skipped.\<close>

fun restore_stock :: "db \<Rightarrow> order_item list \<Rightarrow> db" where
  "restore_stock s [] = s"
| "restore_stock s (it # rest) =
     restore_stock
       (case product_repository_get_by_id s (product_id it) of
          None \<Rightarrow> s
        | Some p \<Rightarrow>
            product_repository_update s (product_id it)
              (stock_only (stock_quantity p + quantity it)))
       rest"

text \<open>
  Lines 112-127: \<^verbatim>\<open>order_fields\<close> takes the status and the items that are present; the
  repository is called when it is not empty.
\<close>

definition apply_order_fields ::
  "db \<Rightarrow> order \<Rightarrow> string option \<Rightarrow> item_request list option \<Rightarrow> order option outcome" where
  "apply_order_fields s ord st its =
     (if st = None \<and> its = None then (Inr (Some ord), s)
      else order_repository_update s (ident ord) \<lparr>patch_status = st, patch_items = its\<rparr>)"

definition order_service_update :: "db \<Rightarrow> int \<Rightarrow> patch \<Rightarrow> order option outcome" where
  "order_service_update s oid update_data =
     (case order_repository_get_by_id s oid of
        None \<Rightarrow> (Inl (OrderNotFound oid), s)
      | Some ord \<Rightarrow>
          (case patch_status update_data of
             None \<Rightarrow> apply_order_fields s ord None (patch_items update_data)
           | Some status_str \<Rightarrow>
               if status_str \<notin> set valid_statuses then (Inl InvalidStatus, s)
               else
                 apply_order_fields
                   (if status_str = ''cancelled'' \<and> status ord \<noteq> ''cancelled''
                    then restore_stock s (items ord) else s)
                   ord (Some status_str) (patch_items update_data)))"

section \<open>Deleting an order\<close>

text \<open>
  \<^verbatim>\<open>OrderRepository.delete\<close> removes the order found by \<^verbatim>\<open>get_by_id\<close>, and with it its
  item rows; a missing order is a no-op. \<^verbatim>\<open>OrderService.delete\<close> raises for a missing
  order.
\<close>

fun remove_first :: "int \<Rightarrow> order list \<Rightarrow> order list" where
  "remove_first oid [] = []"
| "remove_first oid (ord # os) = (if ident ord = oid then os else ord # remove_first oid os)"

definition order_repository_delete :: "db \<Rightarrow> int \<Rightarrow> db" where
  "order_repository_delete s oid =
     (case order_repository_get_by_id s oid of
        None \<Rightarrow> s
      | Some ord \<Rightarrow> s\<lparr>orders := remove_first oid (orders s)\<rparr>)"

definition order_service_delete :: "db \<Rightarrow> int \<Rightarrow> unit outcome" where
  "order_service_delete s oid =
     (case order_repository_get_by_id s oid of
        None \<Rightarrow> (Inl (OrderNotFound oid), s)
      | Some ord \<Rightarrow> (Inr (), order_repository_delete s oid))"

section \<open>Order service: get_by_filter\<close>

text \<open>Python's \<^verbatim>\<open>xs[a:b]\<close>: a negative index counts from the end, both are clamped.\<close>

definition py_slice :: "'a list \<Rightarrow> int \<Rightarrow> int \<Rightarrow> 'a list" where
  "py_slice xs a b =
     (let n = int (length xs);
          lo = (if a < 0 then max (a + n) 0 else min a n);
          hi = (if b < 0 then max (b + n) 0 else min b n)
      in take (nat (hi - lo)) (drop (nat lo) xs))"

text \<open>
  \<^verbatim>\<open>OrderService.get_by_filter\<close>. \<open>accepts_filters\<close> says whether the repository's
  \<^verbatim>\<open>list\<close> takes the keyword arguments \<^verbatim>\<open>user_id\<close> and \<^verbatim>\<open>status\<close>; when it does not, the
  call raises \<^verbatim>\<open>TypeError\<close> and the \<^verbatim>\<open>except\<close> branch lists without filters, at most
  1000 rows, and filters and slices in the process. \<open>cnt\<close> is the parameter
  \<^verbatim>\<open>count\<close>; the controller admits \<^verbatim>\<open>count > 0\<close> and \<^verbatim>\<open>page > 0\<close> only.
\<close>

definition get_by_filter ::
  "bool \<Rightarrow> db \<Rightarrow> int \<Rightarrow> int \<Rightarrow> int option \<Rightarrow> string option \<Rightarrow> nat \<times> order list" where
  "get_by_filter accepts_filters s cnt page uid st =
     (let offset = (page - 1) * cnt
      in if accepts_filters then order_repository_list s (nat cnt) (nat offset) uid st
         else
           (let all_orders = snd (order_repository_list s 1000 0 None None);
                filtered1 = (case uid of None \<Rightarrow> all_orders
                             | Some u \<Rightarrow> filter (\<lambda>ord. user_id ord = u) all_orders);
                filtered2 = (case st of None \<Rightarrow> filtered1
                             | Some t \<Rightarrow> filter (\<lambda>ord. status ord = t) filtered1)
            in (length filtered2, py_slice filtered2 offset (offset + cnt))))"

section \<open>Message handlers\<close>

text \<open>
  The \<^verbatim>\<open>data\<close> dict of a message on the \<^verbatim>\<open>order\<close> queue, with the keys the handlers
  read; a key that is missing or null is \<open>None\<close>.
\<close>

record order_message =
  msg_order_id :: "int option"
  msg_user_id :: "int option"
  msg_status :: "string option"
  msg_items :: "item_request list option"

text \<open>The values of the enum \<^verbatim>\<open>Status\<close> of \<^verbatim>\<open>schemas/order.py\<close>.\<close>

definition status_values :: "string list" where
  "status_values = [''pending'', ''processing'', ''shipped'', ''delivered'', ''cancelled'']"

text \<open>
  Python's \<^verbatim>\<open>not x\<close> for an optional string: \<^verbatim>\<open>None\<close> and the empty string are falsy.
  For an optional integer, \<^verbatim>\<open>None\<close> and 0 are.
\<close>

definition falsy_str :: "string option \<Rightarrow> bool" where
  "falsy_str v = (case v of None \<Rightarrow> True | Some t \<Rightarrow> t = [])"

text \<open>
  The handlers take the service as an argument, as in the source; \<open>service_update\<close> and
  \<open>service_create\<close> stand for \<^verbatim>\<open>service.update\<close> and \<^verbatim>\<open>service.create_order\<close>.
  \<^verbatim>\<open>OrderCreate(**data)\<close> and \<^verbatim>\<open>OrderUpdate(**data)\<close> raise when a required field is
  missing or the status is not a value of the enum.
\<close>

definition handle_order_create ::
  "(db \<Rightarrow> int \<Rightarrow> item_request list \<Rightarrow> order outcome) \<Rightarrow> db \<Rightarrow> order_message \<Rightarrow> unit outcome" where
  "handle_order_create service_create s data =
     (case (msg_user_id data, msg_items data) of
        (Some uid, Some its) \<Rightarrow>
          (case service_create s uid its of
             (Inl e, s') \<Rightarrow> (Inl e, s')
           | (Inr ord, s') \<Rightarrow> (Inr (), s'))
      | _ \<Rightarrow> (Inl ValidationError, s))"

definition handle_order_update_status ::
  "(db \<Rightarrow> int \<Rightarrow> patch \<Rightarrow> order option outcome) \<Rightarrow> db \<Rightarrow> order_message \<Rightarrow> unit outcome" where
  "handle_order_update_status service_update s data =
     (case msg_order_id data of
        None \<Rightarrow> (Inl OrderIdRequired, s)
      | Some oid \<Rightarrow>
          if oid = 0 then (Inl OrderIdRequired, s)
          else if falsy_str (msg_status data) then (Inl StatusRequired, s)
          else
            (case service_update s oid \<lparr>patch_status = msg_status data, patch_items = None\<rparr> of
               (Inl e, s') \<Rightarrow> (Inl e, s')
             | (Inr ord, s') \<Rightarrow> (Inr (), s')))"

definition handle_order_update ::
  "(db \<Rightarrow> int \<Rightarrow> patch \<Rightarrow> order option outcome) \<Rightarrow> db \<Rightarrow> order_message \<Rightarrow> unit outcome" where
  "handle_order_update service_update s data =
     (case msg_order_id data of
        None \<Rightarrow> (Inl OrderIdRequired, s)
      | Some oid \<Rightarrow>
          if oid = 0 then (Inl OrderIdRequired, s)
          else
            (case msg_items data of
               None \<Rightarrow> (Inl ValidationError, s)
             | Some its \<Rightarrow>
                 if (case msg_status data of None \<Rightarrow> False | Some t \<Rightarrow> t \<notin> set status_values)
                 then (Inl ValidationError, s)
                 else
                   (case service_update s oid
                           \<lparr>patch_status = msg_status data, patch_items = Some its\<rparr> of
                      (Inl e, s') \<Rightarrow> (Inl e, s')
                    | (Inr ord, s') \<Rightarrow> (Inr (), s'))))"

text \<open>
  \<^verbatim>\<open>subscribe_order\<close> builds the service from the session and dispatches on the action;
  an unknown action is logged and nothing is raised.
\<close>

definition subscribe_order :: "db \<Rightarrow> string option \<Rightarrow> order_message \<Rightarrow> unit outcome" where
  "subscribe_order s action data =
     (if action = Some ''create'' then handle_order_create create_order s data
      else if action = Some ''update_status''
        then handle_order_update_status order_service_update s data
      else if action = Some ''update'' then handle_order_update order_service_update s data
      else (Inr (), s))"

section \<open>Quantities the properties speak about\<close>

text \<open>The sum of \<open>unit_price \<times> quantity\<close> over a list of item rows.\<close>

definition items_total :: "order_item list \<Rightarrow> real" where
  "items_total rows = sum_list (map (\<lambda>r. unit_price r * real_of_int (quantity r)) rows)"

text \<open>
  The total as the code accumulates it, \<^verbatim>\<open>total += quantity * unit_price\<close> from 0 in the
  order of the rows; and the same sum taken at the products' current prices. Both name
  the additions one by one, from the left, so a statement about them does not rest on
  reordering a sum.
\<close>

definition accumulated_total :: "order_item list \<Rightarrow> real" where
  "accumulated_total rows =
     foldl (\<lambda>t r. t + real_of_int (quantity r) * unit_price r) 0 rows"


text \<open>The quantity a list of item rows holds of product \<open>p\<close>.\<close>

definition returned_quantity :: "int \<Rightarrow> order_item list \<Rightarrow> int" where
  "returned_quantity p rows = sum_list (map quantity (filter (\<lambda>r. product_id r = p) rows))"

text \<open>
  Replace-by-key, in the words of the specification: a row whose product is among the
  incoming items is kept with the incoming quantity and the product's current price,
  a row whose product is not among them is deleted, and an incoming item whose product
  has no row gets a new row at the current price.
\<close>

definition refreshed :: "(int \<rightharpoonup> product) \<Rightarrow> item_request list \<Rightarrow> order_item \<Rightarrow> order_item" where
  "refreshed ps nis r =
     (case (map_of nis (product_id r), ps (product_id r)) of
        (Some q, Some p) \<Rightarrow> r\<lparr>quantity := q, unit_price := price p\<rparr>
      | _ \<Rightarrow> r)"

definition inserted ::
  "(int \<rightharpoonup> product) \<Rightarrow> int \<Rightarrow> int \<Rightarrow> nat \<Rightarrow> item_request list \<Rightarrow> order_item list" where
  "inserted ps oid nid k nis =
     map (\<lambda>(j, (pid, q)).
            \<lparr>item_id = nid + int j, order_id = oid, product_id = pid, quantity = q,
             unit_price = (case ps pid of None \<Rightarrow> 0 | Some p \<Rightarrow> price p)\<rparr>)
       (enumerate k nis)"

definition replace_by_key ::
  "(int \<rightharpoonup> product) \<Rightarrow> int \<Rightarrow> int \<Rightarrow> order_item list \<Rightarrow> item_request list \<Rightarrow> order_item list" where
  "replace_by_key ps oid nid rows nis =
     map (refreshed ps nis) (filter (\<lambda>r. product_id r \<in> fst ` set nis) rows) @
     inserted ps oid nid 0 (filter (\<lambda>(pid, q). pid \<notin> product_id ` set rows) nis)"

definition cancel_only :: patch where
  "cancel_only = \<lparr>patch_status = Some ''cancelled'', patch_items = None\<rparr>"

section \<open>Example data\<close>

text \<open>
  A shop with one user and two products: A at 50 with 100 in stock, B at 20 with 3 in
  stock.
\<close>

definition alice :: user where
  "alice = \<lparr>username = ''alice''\<rparr>"

definition prod_a :: product where
  "prod_a = \<lparr>name = ''A'', price = 50, stock_quantity = 100\<rparr>"

definition prod_b :: product where
  "prod_b = \<lparr>name = ''B'', price = 20, stock_quantity = 3\<rparr>"

definition shop :: db where
  "shop = \<lparr>users = [1 \<mapsto> alice], products = [1 \<mapsto> prod_a, 2 \<mapsto> prod_b], orders = [],
           next_order_id = 1, next_item_id = 1\<rparr>"

text \<open>The shop after an order of two A, and that order.\<close>

definition placed :: db where
  "placed = snd (create_order shop 1 [(1, 2)])"

definition order_a :: order where
  "order_a = \<lparr>ident = 1, user_id = 1, status = ''pending'', total_amount = 100,
     items = [\<lparr>item_id = 1, order_id = 1, product_id = 1, quantity = 2, unit_price = 50\<rparr>]\<rparr>"


text \<open>The same after the order was moved to \<^verbatim>\<open>delivered\<close>.\<close>

definition delivered_db :: db where
  "delivered_db =
     snd (order_service_update placed 1 \<lparr>patch_status = Some ''delivered'', patch_items = None\<rparr>)"

text \<open>The shop after an order that names product A twice.\<close>

definition twice :: db where
  "twice = snd (create_order shop 1 [(1, 1), (1, 2)])"

text \<open>An order of two A and one B, in a shop whose product B is gone.\<close>

definition order_ab :: order where
  "order_ab = \<lparr>ident = 1, user_id = 1, status = ''pending'', total_amount = 120,
     items = [\<lparr>item_id = 1, order_id = 1, product_id = 1, quantity = 2, unit_price = 50\<rparr>,
              \<lparr>item_id = 2, order_id = 1, product_id = 2, quantity = 1, unit_price = 20\<rparr>]\<rparr>"

definition orphaned :: db where
  "orphaned = \<lparr>users = [1 \<mapsto> alice], products = [1 \<mapsto> prod_a\<lparr>stock_quantity := 98\<rparr>],
               orders = [order_ab], next_order_id = 2, next_item_id = 3\<rparr>"

text \<open>Three orders of two users, and a table of 1001 orders.\<close>

definition three_orders :: db where
  "three_orders =
     \<lparr>users = [1 \<mapsto> alice], products = Map.empty,
      orders = [\<lparr>ident = 1, user_id = 1, status = ''pending'', total_amount = 0, items = []\<rparr>,
                \<lparr>ident = 2, user_id = 2, status = ''pending'', total_amount = 0, items = []\<rparr>,
                \<lparr>ident = 3, user_id = 1, status = ''shipped'', total_amount = 0, items = []\<rparr>],
      next_order_id = 4, next_item_id = 1\<rparr>"

definition many_orders :: db where
  "many_orders =
     \<lparr>users = [1 \<mapsto> alice], products = Map.empty,
      orders = map (\<lambda>i. \<lparr>ident = int i, user_id = 1, status = ''pending'', total_amount = 0,
                            items = []\<rparr>) [1..<1002],
      next_order_id = 1002, next_item_id = 1\<rparr>"

section \<open>Basic facts\<close>

lemma set_attrs_stock_only [simp]: "set_attrs p (stock_only v) = p\<lparr>stock_quantity := v\<rparr>"
  by (simp add: set_attrs_def stock_only_def)

lemma product_update_stock:
  "product_repository_update s pid (stock_only v) =
     (case products s pid of None \<Rightarrow> s
      | Some p \<Rightarrow> s\<lparr>products := (products s)(pid \<mapsto> p\<lparr>stock_quantity := v\<rparr>)\<rparr>)"
  by (simp add: product_repository_update_def product_repository_get_by_id_def split: option.splits)

lemma get_by_id_ident:
  "order_repository_get_by_id s oid = Some ord \<Longrightarrow> ident ord = oid"
  by (auto simp: order_repository_get_by_id_def find_Some_iff)

lemma get_by_id_orders_cong:
  "orders s1 = orders s \<Longrightarrow> order_repository_get_by_id s1 oid = order_repository_get_by_id s oid"
  by (simp add: order_repository_get_by_id_def)

lemma find_replace:
  "find (\<lambda>ord. ident ord = oid) os = Some ord \<Longrightarrow> ident ord' = oid \<Longrightarrow>
   find (\<lambda>ord. ident ord = oid) (map (\<lambda>ord. if ident ord = oid then ord' else ord) os) = Some ord'"
  by (induction os) (auto split: if_splits)

lemma get_by_id_store_order:
  "order_repository_get_by_id s oid = Some ord \<Longrightarrow> ident ord' = oid \<Longrightarrow>
   order_repository_get_by_id (store_order s ord') oid = Some ord'"
  by (simp add: order_repository_get_by_id_def store_order_def find_replace)

lemma store_order_products [simp]: "products (store_order s ord) = products s"
  by (simp add: store_order_def)

subsection \<open>The restitution loop\<close>

lemma restore_stock_rest [simp]:
  "orders (restore_stock s rows) = orders s"
  "users (restore_stock s rows) = users s"
  "next_order_id (restore_stock s rows) = next_order_id s"
  "next_item_id (restore_stock s rows) = next_item_id s"
  by (induction rows arbitrary: s;
      simp add: product_update_stock product_repository_get_by_id_def split: option.splits)+

lemma restore_stock_products:
  "products (restore_stock s rows) p =
     map_option (\<lambda>pr. pr\<lparr>stock_quantity := stock_quantity pr + returned_quantity p rows\<rparr>)
       (products s p)"
proof (induction rows arbitrary: s)
  case Nil
  show ?case by (cases "products s p") (simp_all add: returned_quantity_def)
next
  case (Cons it rows)
  define s1 where "s1 =
    (case product_repository_get_by_id s (product_id it) of
       None \<Rightarrow> s
     | Some pr \<Rightarrow>
         product_repository_update s (product_id it)
           (stock_only (stock_quantity pr + quantity it)))"
  have step: "products (restore_stock s (it # rows)) p =
      map_option (\<lambda>pr. pr\<lparr>stock_quantity := stock_quantity pr + returned_quantity p rows\<rparr>)
        (products s1 p)"
    by (simp add: Cons.IH s1_def)
  have s1: "products s1 p =
      map_option (\<lambda>pr. pr\<lparr>stock_quantity := stock_quantity pr +
                     (if product_id it = p then quantity it else 0)\<rparr>) (products s p)"
    by (cases "products s (product_id it)"; cases "products s p")
       (auto simp: s1_def product_repository_get_by_id_def product_update_stock)
  show ?case
    unfolding step s1
    by (cases "products s p") (simp_all add: returned_quantity_def)
qed

subsection \<open>The repository's update\<close>

lemma repo_update_products:
  "products (snd (order_repository_update s oid pt)) = products s"
  by (auto simp: order_repository_update_def Let_def split: option.splits sum.splits prod.splits)

lemma apply_fields_products:
  "products (snd (apply_order_fields s ord st its)) = products s"
  by (simp add: apply_order_fields_def repo_update_products)

lemma repo_update_status_only:
  assumes "order_repository_get_by_id s oid = Some ord"
  shows "order_repository_update s oid \<lparr>patch_status = Some st, patch_items = None\<rparr> =
           (Inr (Some (ord\<lparr>status := st\<rparr>)), store_order s (ord\<lparr>status := st\<rparr>))"
  using assms by (simp add: order_repository_update_def Let_def)

lemma repo_update_result:
  assumes "order_repository_get_by_id s oid = Some ord"
    and "order_repository_update s oid pt = (Inr r, s')"
  shows "\<exists>ord'. r = Some ord' \<and> order_repository_get_by_id s' oid = Some ord' \<and>
           status ord' = (case patch_status pt of None \<Rightarrow> status ord | Some st \<Rightarrow> st)"
proof -
  have id: "ident ord = oid" using assms(1) by (rule get_by_id_ident)
  show ?thesis
  proof (cases "patch_items pt")
    case None
    define ord1 where "ord1 =
      (case patch_status pt of None \<Rightarrow> ord | Some st \<Rightarrow> ord\<lparr>status := st\<rparr>)"
    have "order_repository_update s oid pt = (Inr (Some ord1), store_order s ord1)"
      using assms(1) None by (simp add: order_repository_update_def ord1_def Let_def)
    with assms(2) have r: "r = Some ord1" and s': "s' = store_order s ord1"
      by simp_all
    have "ident ord1 = oid"
      using id by (simp add: ord1_def split: option.splits)
    with assms(1) have "order_repository_get_by_id s' oid = Some ord1"
      unfolding s' by (rule get_by_id_store_order)
    moreover have "status ord1 = (case patch_status pt of None \<Rightarrow> status ord | Some st \<Rightarrow> st)"
      by (simp add: ord1_def split: option.splits)
    ultimately show ?thesis using r by simp
  next
    case (Some new_items)
    show ?thesis
    proof (cases "reconcile (products s) (ident ord) (next_item_id s)
                    (existing_by_product (items ord)) new_items (items ord) [] {} 0")
      case (Inl e)
      with assms Some show ?thesis
        by (simp add: order_repository_update_def)
    next
      case (Inr res)
      obtain rows added seen tot where res: "res = (rows, added, seen, tot)"
        by (cases res) auto
      define ord2 where "ord2 =
        (case patch_status pt of None \<Rightarrow> ord | Some st \<Rightarrow> ord\<lparr>status := st\<rparr>)
          \<lparr>items := remaining_rows rows
                     (deleted_rows (existing_by_product (items ord)) seen) @ added,
           total_amount := tot\<rparr>"
      have "order_repository_update s oid pt =
          (Inr (Some ord2), (store_order s ord2)\<lparr>next_item_id := next_item_id s + int (length added)\<rparr>)"
        using assms(1) Some Inr res
        by (simp add: order_repository_update_def ord2_def Let_def)
      with assms(2) have r: "r = Some ord2"
        and s': "s' = (store_order s ord2)\<lparr>next_item_id := next_item_id s + int (length added)\<rparr>"
        by simp_all
      have id2: "ident ord2 = oid"
        using id by (simp add: ord2_def split: option.splits)
      have "order_repository_get_by_id s' oid = order_repository_get_by_id (store_order s ord2) oid"
        unfolding s' by (rule get_by_id_orders_cong) simp
      also have "\<dots> = Some ord2"
        using assms(1) id2 by (rule get_by_id_store_order)
      finally have "order_repository_get_by_id s' oid = Some ord2" .
      moreover have "status ord2 = (case patch_status pt of None \<Rightarrow> status ord | Some st \<Rightarrow> st)"
        by (simp add: ord2_def split: option.splits)
      ultimately show ?thesis using r by simp
    qed
  qed
qed


subsection \<open>Reconciliation of rows with distinct product ids\<close>

text \<open>
  With the product ids of the rows pairwise distinct, the dict of existing rows maps a
  product id to the position of its row.
\<close>

lemma ebp_fold_notin:
  "pid \<notin> product_id ` set rows \<Longrightarrow>
   map_of (fold (\<lambda>(i, r) d. AList.update (product_id r) i d) (enumerate n rows) d0) pid =
     map_of d0 pid"
  by (induction rows arbitrary: n d0) (auto simp: update_conv')

lemma ebp_fold_nth:
  "distinct (map product_id rows) \<Longrightarrow> j < length rows \<Longrightarrow>
   map_of (fold (\<lambda>(i, r) d. AList.update (product_id r) i d) (enumerate n rows) d0)
     (product_id (rows ! j)) = Some (n + j)"
proof (induction rows arbitrary: n d0 j)
  case Nil
  then show ?case by simp
next
  case (Cons r rows)
  show ?case
  proof (cases j)
    case 0
    from Cons.prems have "product_id r \<notin> product_id ` set rows" by auto
    from ebp_fold_notin [OF this] show ?thesis by (simp add: 0 update_conv')
  next
    case (Suc j')
    with Cons.prems have "distinct (map product_id rows)" "j' < length rows" by auto
    from Cons.IH [OF this, of "Suc n"] show ?thesis by (simp add: Suc)
  qed
qed

lemma ebp_fold_range:
  "map_of (fold (\<lambda>(i, r) d. AList.update (product_id r) i d) (enumerate n rows) d0) pid = Some i \<Longrightarrow>
   map_of d0 pid = Some i \<or> (n \<le> i \<and> i < n + length rows)"
proof (induction rows arbitrary: n d0)
  case Nil
  then show ?case by simp
next
  case (Cons r rows)
  from Cons.prems
  have "map_of (fold (\<lambda>(i, r) d. AList.update (product_id r) i d) (enumerate (Suc n) rows)
                  (AList.update (product_id r) n d0)) pid = Some i"
    by simp
  from Cons.IH [OF this] show ?case
    by (auto simp: update_conv' split: if_splits)
qed

text \<open>A reference held by the dict is a position of the list, so the loop reads in range.\<close>

lemma existing_by_product_in_range:
  "map_of (existing_by_product rows) pid = Some i \<Longrightarrow> i < length rows"
  using ebp_fold_range [of 0 rows "[]" pid i] by (simp add: existing_by_product_def)

lemma ebp_fold_distinct:
  "distinct (map fst d0) \<Longrightarrow>
   distinct (map fst (fold (\<lambda>(i, r) d. AList.update (product_id r) i d) xs d0))"
  by (induction xs arbitrary: d0) (auto simp: distinct_update)

lemma existing_lookup:
  assumes "distinct (map product_id rows)"
  shows "map_of (existing_by_product rows) pid = Some i \<longleftrightarrow>
           i < length rows \<and> product_id (rows ! i) = pid"
proof
  assume L: "map_of (existing_by_product rows) pid = Some i"
  have "pid \<in> product_id ` set rows"
  proof (rule ccontr)
    assume "pid \<notin> product_id ` set rows"
    from ebp_fold_notin [OF this, of 0 "[]"] L show False
      by (simp add: existing_by_product_def)
  qed
  then obtain j where j: "j < length rows" "product_id (rows ! j) = pid"
    by (auto simp: in_set_conv_nth)
  from ebp_fold_nth [OF assms j(1), of 0 "[]"] j(2)
  have "map_of (existing_by_product rows) pid = Some j"
    by (simp add: existing_by_product_def)
  with L j show "i < length rows \<and> product_id (rows ! i) = pid" by simp
next
  assume "i < length rows \<and> product_id (rows ! i) = pid"
  with ebp_fold_nth [OF assms, of i 0 "[]"]
  show "map_of (existing_by_product rows) pid = Some i"
    by (auto simp: existing_by_product_def)
qed

lemma existing_lookup_None:
  assumes "distinct (map product_id rows)"
  shows "map_of (existing_by_product rows) pid = None \<longleftrightarrow> pid \<notin> product_id ` set rows"
proof
  assume N: "map_of (existing_by_product rows) pid = None"
  show "pid \<notin> product_id ` set rows"
  proof
    assume "pid \<in> product_id ` set rows"
    then obtain j where "j < length rows" "product_id (rows ! j) = pid"
      by (auto simp: in_set_conv_nth)
    then have "map_of (existing_by_product rows) pid = Some j"
      by (simp add: existing_lookup [OF assms])
    with N show False by simp
  qed
next
  assume "pid \<notin> product_id ` set rows"
  from ebp_fold_notin [OF this, of 0 "[]"]
  show "map_of (existing_by_product rows) pid = None"
    by (simp add: existing_by_product_def)
qed

lemma existing_set:
  assumes "distinct (map product_id rows)"
  shows "(pid, i) \<in> set (existing_by_product rows) \<longleftrightarrow>
           i < length rows \<and> product_id (rows ! i) = pid"
proof -
  have "distinct (map fst (existing_by_product rows))"
    unfolding existing_by_product_def by (rule ebp_fold_distinct) simp
  then have "(pid, i) \<in> set (existing_by_product rows) \<longleftrightarrow>
      map_of (existing_by_product rows) pid = Some i" by simp
  with existing_lookup [OF assms] show ?thesis by simp
qed


lemma inserted_Cons:
  "inserted ps oid nid k ((pid, q) # nis) =
     \<lparr>item_id = nid + int k, order_id = oid, product_id = pid, quantity = q,
      unit_price = (case ps pid of None \<Rightarrow> 0 | Some p \<Rightarrow> price p)\<rparr> #
     inserted ps oid nid (Suc k) nis"
  by (simp add: inserted_def)

lemma reconcile_by_key:
  assumes d: "distinct (map product_id rows0)"
  shows "\<forall>(pid, q) \<in> set nis. ps pid \<noteq> None \<Longrightarrow> distinct (map fst nis) \<Longrightarrow>
     map product_id rows = map product_id rows0 \<Longrightarrow>
     reconcile ps oid nid (existing_by_product rows0) nis rows added seen tot =
       Inr (map (\<lambda>r. if product_id r \<in> fst ` set nis then refreshed ps nis r else r) rows,
            added @ inserted ps oid nid (length added)
                      (filter (\<lambda>(pid, q). pid \<notin> product_id ` set rows0) nis),
            seen \<union> fst ` set nis,
            tot + sum_list (map (\<lambda>(pid, q). real_of_int q * price (the (ps pid))) nis))"
proof (induction nis arbitrary: rows added seen tot)
  case Nil
  show ?case by (simp add: inserted_def)
next
  case (Cons ni nis)
  obtain pid q where ni: "ni = (pid, q)" by (cases ni)
  from Cons.prems(1) ni obtain p where p: "ps pid = Some p" by auto
  have rest: "\<forall>(pid, q) \<in> set nis. ps pid \<noteq> None" using Cons.prems(1) by simp
  have dn: "distinct (map fst nis)" and fresh: "pid \<notin> fst ` set nis"
    using Cons.prems(2) ni by auto
  have len: "length rows = length rows0" using Cons.prems(3) by (metis length_map)
  have pids: "product_id (rows ! k) = product_id (rows0 ! k)" if "k < length rows" for k
    using Cons.prems(3) that by (metis nth_map len)
  have img: "product_id ` set rows = product_id ` set rows0"
    using Cons.prems(3) by (metis set_map)
  show ?case
  proof (cases "map_of (existing_by_product rows0) pid")
    case None
    then have notin: "pid \<notin> product_id ` set rows0"
      by (simp add: existing_lookup_None [OF d])
    have rows_eq:
      "map (\<lambda>r. if product_id r \<in> fst ` set (ni # nis) then refreshed ps (ni # nis) r else r) rows =
       map (\<lambda>r. if product_id r \<in> fst ` set nis then refreshed ps nis r else r) rows"
      using notin img by (auto simp: ni refreshed_def)
    show ?thesis
      unfolding rows_eq
      using Cons.IH [OF rest dn Cons.prems(3), of
          "added @ [\<lparr>item_id = nid + int (length added), order_id = oid, product_id = pid,
                      quantity = q, unit_price = price p\<rparr>]"
          "insert pid seen" "tot + real_of_int q * price p"] notin
      by (simp add: ni p None inserted_Cons add.assoc)
  next
    case (Some i)
    then have i: "i < length rows0" "product_id (rows0 ! i) = pid"
      by (simp_all add: existing_lookup [OF d])
    define rows1 where "rows1 = rows[i := (rows ! i)\<lparr>quantity := q, unit_price := price p\<rparr>]"
    have same1: "map product_id rows1 = map product_id rows0"
      unfolding rows1_def using Cons.prems(3) i len
      by (simp add: map_update list_update_same_conv pids)
    have other: "product_id (rows ! k) \<noteq> pid" if "k < length rows" "k \<noteq> i" for k
    proof -
      have "k < length (map product_id rows0)" "i < length (map product_id rows0)"
        using that i len by simp_all
      with d that(2) have "map product_id rows0 ! k \<noteq> map product_id rows0 ! i"
        by (simp only: nth_eq_iff_index_eq not_False_eq_True)
      with that i len show ?thesis by (simp add: pids)
    qed
    have rows_eq:
      "map (\<lambda>r. if product_id r \<in> fst ` set (ni # nis) then refreshed ps (ni # nis) r else r) rows =
       map (\<lambda>r. if product_id r \<in> fst ` set nis then refreshed ps nis r else r) rows1"
    proof (rule nth_equalityI)
      show "length (map (\<lambda>r. if product_id r \<in> fst ` set (ni # nis)
                              then refreshed ps (ni # nis) r else r) rows) =
            length (map (\<lambda>r. if product_id r \<in> fst ` set nis then refreshed ps nis r else r) rows1)"
        by (simp add: rows1_def)
    next
      fix k
      assume "k < length (map (\<lambda>r. if product_id r \<in> fst ` set (ni # nis)
                                     then refreshed ps (ni # nis) r else r) rows)"
      then have k: "k < length rows" by simp
      show "map (\<lambda>r. if product_id r \<in> fst ` set (ni # nis)
                       then refreshed ps (ni # nis) r else r) rows ! k =
            map (\<lambda>r. if product_id r \<in> fst ` set nis then refreshed ps nis r else r) rows1 ! k"
      proof (cases "k = i")
        case True
        with k i len fresh p pids [of i] show ?thesis
          by (simp add: rows1_def ni refreshed_def)
      next
        case False
        with k other [of k] show ?thesis
          by (simp add: rows1_def ni refreshed_def)
      qed
    qed
    have isin: "pid \<in> product_id ` set rows0"
      using i by (metis nth_mem imageI)
    show ?thesis
      unfolding rows_eq
      using Cons.IH [OF rest dn same1, of added "insert pid seen" "tot + real_of_int q * price p"]
        isin
      by (simp add: ni p Some rows1_def add.assoc)
  qed
qed


lemma filter_enumerate:
  "(\<And>i. i < length xs \<Longrightarrow> P (n + i) = Q (xs ! i)) \<Longrightarrow>
   map snd (filter (\<lambda>(i, r). P i) (enumerate n xs)) = filter Q xs"
proof (induction xs arbitrary: n)
  case Nil
  show ?case by simp
next
  case (Cons x xs)
  from Cons.prems [of 0] have head: "P n = Q x" by simp
  have "map snd (filter (\<lambda>(i, r). P i) (enumerate (Suc n) xs)) = filter Q xs"
  proof (rule Cons.IH)
    fix i assume "i < length xs"
    with Cons.prems [of "Suc i"] show "P (Suc n + i) = Q (xs ! i)" by simp
  qed
  with head show ?case by simp
qed

lemma refreshed_product_id [simp]: "product_id (refreshed ps nis r) = product_id r"
  by (simp add: refreshed_def split: option.splits)

lemma remaining_by_key:
  assumes d: "distinct (map product_id rows0)"
  shows "remaining_rows
           (map (\<lambda>r. if product_id r \<in> K then refreshed ps nis r else r) rows0)
           (deleted_rows (existing_by_product rows0) K) =
         map (refreshed ps nis) (filter (\<lambda>r. product_id r \<in> K) rows0)"
proof -
  let ?rows = "map (\<lambda>r. if product_id r \<in> K then refreshed ps nis r else r) rows0"
  have del: "i \<in> set (deleted_rows (existing_by_product rows0) K) \<longleftrightarrow>
      i < length rows0 \<and> product_id (rows0 ! i) \<notin> K" for i
  proof
    assume "i \<in> set (deleted_rows (existing_by_product rows0) K)"
    then obtain pid where "(pid, i) \<in> set (existing_by_product rows0)" "pid \<notin> K"
      by (auto simp: deleted_rows_def)
    then show "i < length rows0 \<and> product_id (rows0 ! i) \<notin> K"
      by (simp add: existing_set [OF d])
  next
    assume "i < length rows0 \<and> product_id (rows0 ! i) \<notin> K"
    then have "(product_id (rows0 ! i), i) \<in> set (existing_by_product rows0)"
      and "product_id (rows0 ! i) \<notin> K"
      by (simp_all add: existing_set [OF d])
    then have "(product_id (rows0 ! i), i) \<in>
        set (filter (\<lambda>(pid, i). pid \<notin> K) (existing_by_product rows0))"
      by simp
    then have "snd (product_id (rows0 ! i), i) \<in>
        snd ` set (filter (\<lambda>(pid, i). pid \<notin> K) (existing_by_product rows0))"
      by (rule imageI)
    then show "i \<in> set (deleted_rows (existing_by_product rows0) K)"
      by (simp add: deleted_rows_def)
  qed
  have "remaining_rows ?rows (deleted_rows (existing_by_product rows0) K) =
      filter (\<lambda>r. product_id r \<in> K) ?rows"
    unfolding remaining_rows_def
    by (rule filter_enumerate) (simp add: del)
  also have "\<dots> = map (refreshed ps nis) (filter (\<lambda>r. product_id r \<in> K) rows0)"
    by (induction rows0) auto
  finally show ?thesis .
qed

lemma items_total_append: "items_total (xs @ ys) = items_total xs + items_total ys"
  by (simp add: items_total_def)

lemma items_total_inserted:
  "\<forall>(pid, q) \<in> set xs. ps pid \<noteq> None \<Longrightarrow>
   items_total (inserted ps oid nid k xs) =
     sum_list (map (\<lambda>(pid, q). real_of_int q * price (the (ps pid))) xs)"
proof (induction xs arbitrary: k)
  case Nil
  show ?case by (simp add: inserted_def items_total_def)
next
  case (Cons x xs)
  obtain pid q where x: "x = (pid, q)" by (cases x)
  from Cons.prems x obtain p where p: "ps pid = Some p" by auto
  from Cons.prems have "\<forall>(pid, q) \<in> set xs. ps pid \<noteq> None" by simp
  from Cons.IH [OF this, of "Suc k"] show ?case
    by (simp add: x p inserted_Cons items_total_def)
qed

lemma sum_list_split:
  fixes f :: "'a \<Rightarrow> real"
  shows "sum_list (map f xs) =
     sum_list (map f (filter P xs)) + sum_list (map f (filter (\<lambda>x. \<not> P x) xs))"
  by (induction xs) simp_all

lemma items_total_refreshed:
  assumes d: "distinct (map product_id rows0)"
    and dn: "distinct (map fst nis)"
    and ex: "\<forall>(pid, q) \<in> set nis. ps pid \<noteq> None"
  shows "items_total (map (refreshed ps nis) (filter (\<lambda>r. product_id r \<in> fst ` set nis) rows0)) =
     sum_list (map (\<lambda>(pid, q). real_of_int q * price (the (ps pid)))
                (filter (\<lambda>(pid, q). pid \<in> product_id ` set rows0) nis))"
proof -
  let ?g = "\<lambda>(pid, q). real_of_int q * price (the (ps pid))"
  let ?R = "filter (\<lambda>r. product_id r \<in> fst ` set nis) rows0"
  let ?N = "filter (\<lambda>(pid, q). pid \<in> product_id ` set rows0) nis"
  let ?l = "\<lambda>r. (product_id r, the (map_of nis (product_id r)))"
  have dR: "distinct ?R" using d by (simp add: distinct_map)
  have dN: "distinct ?N" using dn by (simp add: distinct_map)
  have inj: "inj_on ?l (set ?R)"
    using d by (auto simp: inj_on_def distinct_map)
  have look: "map_of nis pid = Some q \<longleftrightarrow> (pid, q) \<in> set nis" for pid q
    using dn by simp
  have img: "set ?N = ?l ` set ?R"
  proof (intro set_eqI iffI)
    fix x assume "x \<in> set ?N"
    then obtain pid q where x: "x = (pid, q)" "(pid, q) \<in> set nis" "pid \<in> product_id ` set rows0"
      by auto
    then obtain r where r: "r \<in> set rows0" "product_id r = pid" by auto
    from x have "map_of nis pid = Some q" by (simp add: look)
    with x r have "r \<in> set ?R" "?l r = x" by (auto intro: rev_image_eqI)
    then show "x \<in> ?l ` set ?R" by blast
  next
    fix x assume "x \<in> ?l ` set ?R"
    then obtain r where r: "r \<in> set rows0" "product_id r \<in> fst ` set nis" "x = ?l r" by auto
    then obtain q where "(product_id r, q) \<in> set nis" by auto
    then have "map_of nis (product_id r) = Some q" "(product_id r, q) \<in> set nis"
      by (simp_all add: look)
    with r show "x \<in> set ?N" by auto
  qed
  have val: "unit_price (refreshed ps nis r) * real_of_int (quantity (refreshed ps nis r)) = ?g (?l r)"
    if "r \<in> set ?R" for r
  proof -
    from that obtain q where q: "(product_id r, q) \<in> set nis" by auto
    then have m: "map_of nis (product_id r) = Some q" by (simp add: look)
    from q ex obtain p where "ps (product_id r) = Some p" by auto
    with m show ?thesis by (simp add: refreshed_def)
  qed
  have "items_total (map (refreshed ps nis) ?R) =
      sum_list (map (\<lambda>r. unit_price (refreshed ps nis r) *
                           real_of_int (quantity (refreshed ps nis r))) ?R)"
    by (simp add: items_total_def comp_def)
  also have "\<dots> = sum (\<lambda>r. unit_price (refreshed ps nis r) *
                           real_of_int (quantity (refreshed ps nis r))) (set ?R)"
    using dR by (rule sum_list_distinct_conv_sum_set)
  also have "\<dots> = sum ?g (set ?N)"
    by (rule sum.reindex_cong [OF inj img, symmetric]) (simp add: val)
  also have "\<dots> = sum_list (map ?g ?N)"
    using dN by (rule sum_list_distinct_conv_sum_set [symmetric])
  finally show ?thesis .
qed

lemma replace_by_key_total:
  assumes d: "distinct (map product_id rows0)"
    and dn: "distinct (map fst nis)"
    and ex: "\<forall>(pid, q) \<in> set nis. ps pid \<noteq> None"
  shows "items_total (replace_by_key ps oid nid rows0 nis) =
     sum_list (map (\<lambda>(pid, q). real_of_int q * price (the (ps pid))) nis)"
proof -
  have ex': "\<forall>(pid, q) \<in> set (filter (\<lambda>(pid, q). pid \<notin> product_id ` set rows0) nis).
      ps pid \<noteq> None"
    using ex by auto
  have neg: "filter (\<lambda>x. \<not> (case x of (pid, q) \<Rightarrow> pid \<in> product_id ` set rows0)) nis =
      filter (\<lambda>(pid, q). pid \<notin> product_id ` set rows0) nis"
    by (rule filter_cong) auto
  show ?thesis
    unfolding replace_by_key_def items_total_append
      items_total_refreshed [OF d dn ex] items_total_inserted [OF ex']
    by (subst (3) sum_list_split [where P = "\<lambda>(pid, q). pid \<in> product_id ` set rows0"])
       (simp add: neg)
qed

lemma update_replaces_by_key:
  assumes found: "order_repository_get_by_id s oid = Some ord"
    and d: "distinct (map product_id (items ord))"
    and dn: "distinct (map fst nis)"
    and ex: "\<forall>(pid, q) \<in> set nis. products s pid \<noteq> None"
  shows "\<exists>ord'. fst (order_service_update s oid \<lparr>patch_status = None, patch_items = Some nis\<rparr>) =
             Inr (Some ord') \<and>
           items ord' = replace_by_key (products s) oid (next_item_id s) (items ord) nis \<and>
           total_amount ord' = items_total (items ord')"
proof -
  have id: "ident ord = oid" using found by (rule get_by_id_ident)
  note rec = reconcile_by_key [OF d ex dn refl, of oid "next_item_id s" "[]" "{}" 0]
  define ord2 where "ord2 =
    ord\<lparr>items := replace_by_key (products s) oid (next_item_id s) (items ord) nis,
        total_amount := items_total
          (replace_by_key (products s) oid (next_item_id s) (items ord) nis)\<rparr>"
  have "fst (order_service_update s oid \<lparr>patch_status = None, patch_items = Some nis\<rparr>) =
      Inr (Some ord2)"
    using found id
    by (simp add: order_service_update_def apply_order_fields_def order_repository_update_def
          Let_def rec remaining_by_key [OF d] ord2_def replace_by_key_def [symmetric]
          replace_by_key_total [OF d dn ex])
  then show ?thesis by (simp add: ord2_def)
qed

subsection \<open>The example data, evaluated\<close>

lemma shop_simps:
  "users shop 1 = Some alice"
  "products shop 1 = Some prod_a"
  "products shop 2 = Some prod_b"
  "orders shop = []"
  "next_order_id shop = 1"
  "next_item_id shop = 1"
  by (simp_all add: shop_def)

text \<open>
  The scenario of the specification: two of A at 50.0 with 100 in stock give an order of
  100.0 and leave 98 in stock.
\<close>

lemma create_order_a: "fst (create_order shop 1 [(1, 2)]) = Inr order_a"
  by (simp add: create_order_def shop_simps prod_a_def order_repository_create_def order_a_def
        product_update_stock Let_def)

lemma placed_simps:
  "products placed 1 = Some (prod_a\<lparr>stock_quantity := 98\<rparr>)"
  "products placed 2 = Some prod_b"
  "orders placed = [order_a]"
  "next_item_id placed = 2"
  by (simp_all add: placed_def create_order_def shop_simps prod_a_def order_repository_create_def
        order_a_def product_update_stock Let_def)

lemma get_placed: "order_repository_get_by_id placed 1 = Some order_a"
  by (simp add: order_repository_get_by_id_def placed_simps order_a_def)


lemma delivered_simps:
  "orders delivered_db = [order_a\<lparr>status := ''delivered''\<rparr>]"
  by (simp add: delivered_db_def order_service_update_def apply_order_fields_def
        valid_statuses_def order_repository_update_def Let_def store_order_def placed_simps
        get_placed [unfolded order_a_def] order_a_def)

lemma get_delivered:
  "order_repository_get_by_id delivered_db 1 = Some (order_a\<lparr>status := ''delivered''\<rparr>)"
  by (simp add: order_repository_get_by_id_def delivered_simps order_a_def)

lemma twice_simps:
  "products twice 1 = Some (prod_a\<lparr>stock_quantity := 97\<rparr>)"
  "products twice 2 = Some prod_b"
  "orders twice =
     [\<lparr>ident = 1, user_id = 1, status = ''pending'', total_amount = 150,
       items = [\<lparr>item_id = 1, order_id = 1, product_id = 1, quantity = 1, unit_price = 50\<rparr>,
                \<lparr>item_id = 2, order_id = 1, product_id = 1, quantity = 2, unit_price = 50\<rparr>]\<rparr>]"
  "next_item_id twice = 3"
  by (simp_all add: twice_def create_order_def shop_simps prod_a_def order_repository_create_def
        product_update_stock Let_def)

lemma cancel_placed:
  "fst (order_service_update placed 1 cancel_only) = Inr (Some (order_a\<lparr>status := ''cancelled''\<rparr>))"
  by (simp add: cancel_only_def order_service_update_def apply_order_fields_def
        valid_statuses_def order_repository_update_def Let_def
        order_repository_get_by_id_def placed_simps order_a_def product_update_stock
        product_repository_get_by_id_def)

section \<open>Creating an order\<close>

lemma validate_items_fails:
  "(pid, qty) \<in> set its \<Longrightarrow>
   (case ps pid of None \<Rightarrow> True | Some p \<Rightarrow> stock_quantity p < qty) \<Longrightarrow>
   \<exists>e. validate_items ps its tot upd = Inl e"
proof (induction its arbitrary: tot upd)
  case Nil
  then show ?case by simp
next
  case (Cons it its)
  obtain pid' qty' where it: "it = (pid', qty')" by (cases it)
  show ?case
  proof (cases "ps pid'")
    case None
    then show ?thesis by (simp add: it)
  next
    case (Some p)
    show ?thesis
    proof (cases "stock_quantity p < qty'")
      case True
      then show ?thesis by (simp add: it Some)
    next
      case False
      with Cons.prems Some it have "(pid, qty) \<in> set its" by auto
      with Cons.IH Cons.prems(2) show ?thesis
        by (simp add: it Some False)
    qed
  qed
qed

text \<open>
  C1. If some item of a create_order request fails validation (its product is absent, or
  its quantity exceeds the product's stock), the operation fails and returns the
  database exactly as it was: no stock is changed, also not for the items before the
  failing one, and no order or item row is created.
\<close>

theorem create_order_validation_atomic:
  assumes "k < length its"
    and "products s (fst (its ! k)) = None \<or>
         (\<exists>p. products s (fst (its ! k)) = Some p \<and> stock_quantity p < snd (its ! k))"
  shows "\<exists>e. create_order s uid its = (Inl e, s)"
proof -
  obtain pid qty where pq: "its ! k = (pid, qty)" by (cases "its ! k")
  with assms(1) have mem: "(pid, qty) \<in> set its" by (metis nth_mem)
  from assms(2) pq
  have bad: "case products s pid of None \<Rightarrow> True | Some p \<Rightarrow> stock_quantity p < qty"
    by (auto split: option.splits)
  from validate_items_fails [where ps = "products s" and tot = 0 and upd = "[]"] mem bad
  obtain e where "validate_items (products s) its 0 [] = Inl e" by blast
  then show ?thesis
    by (auto simp: create_order_def split: option.splits)
qed

text \<open>
  The scenario of the specification: five of A pass, ten of B exceed the stock of 3; the
  request fails with \<open>InsufficientStock\<close> and the shop is unchanged.
\<close>

theorem create_order_validation_atomic_witness:
  "create_order shop 1 [(1, 5), (2, 10)] = (Inl InsufficientStock, shop)"
proof -
  have "\<exists>e. create_order shop 1 [(1, 5), (2, 10)] = (Inl e, shop)"
    by (rule create_order_validation_atomic [where k = 1])
       (simp_all add: shop_def prod_b_def)
  moreover have "validate_items (products shop) [(1, 5), (2, 10)] 0 [] = Inl InsufficientStock"
    by (simp add: shop_def prod_a_def prod_b_def)
  ultimately show ?thesis
    by (simp add: create_order_def shop_def alice_def)
qed

section \<open>The stored total\<close>

text \<open>The repository's create stores the sum over the rows it creates.\<close>

lemma create_rows_total:
  "create_rows ps oid nid its rows tot = Inr (rows', tot') \<Longrightarrow>
   tot' - items_total rows' = tot - items_total rows"
proof (induction its arbitrary: rows tot)
  case Nil
  then show ?case by simp
next
  case (Cons it its)
  obtain pid q where it: "it = (pid, q)" by (cases it)
  from Cons.prems it obtain p where p: "ps pid = Some p"
    by (cases "ps pid") auto
  from Cons.prems it p Cons.IH show ?case
    by (fastforce simp: items_total_def)
qed

lemma create_stores_items_total:
  "order_repository_create s uid its = (Inr ord, s') \<Longrightarrow>
   total_amount ord = items_total (items ord)"
  by (auto simp: order_repository_create_def Let_def items_total_def
        split: option.splits sum.splits dest!: create_rows_total)

text \<open>It stores it as the left-to-right accumulation over those rows.\<close>

lemma create_rows_accumulates:
  "create_rows ps oid nid its rows tot = Inr (rows', tot') \<Longrightarrow>
   \<exists>new. rows' = rows @ new \<and>
         tot' = foldl (\<lambda>t r. t + real_of_int (quantity r) * unit_price r) tot new"
proof (induction its arbitrary: rows tot)
  case Nil
  then show ?case by simp
next
  case (Cons it its)
  obtain pid q where it: "it = (pid, q)" by (cases it)
  from Cons.prems it obtain p where p: "ps pid = Some p"
    by (cases "ps pid") auto
  let ?row = "\<lparr>item_id = nid + int (length rows), order_id = oid, product_id = pid,
                quantity = q, unit_price = price p\<rparr>"
  from Cons.prems it p
  have "create_rows ps oid nid its (rows @ [?row]) (tot + real_of_int q * price p) =
      Inr (rows', tot')" by simp
  from Cons.IH [OF this] obtain new where
    "rows' = (rows @ [?row]) @ new"
    "tot' = foldl (\<lambda>t r. t + real_of_int (quantity r) * unit_price r)
              (tot + real_of_int q * price p) new"
    by blast
  then have "rows' = rows @ (?row # new) \<and>
      tot' = foldl (\<lambda>t r. t + real_of_int (quantity r) * unit_price r) tot (?row # new)"
    by simp
  then show ?case by blast
qed

lemma create_stores_accumulated_total:
  assumes "order_repository_create s uid its = (Inr ord, s')"
  shows "total_amount ord = accumulated_total (items ord)"
proof -
  from assms obtain u rows tot where
    "create_rows (products s) (next_order_id s) (next_item_id s) its [] 0 = Inr (rows, tot)"
    "ord = \<lparr>ident = next_order_id s, user_id = uid, status = ''pending'',
            total_amount = tot, items = rows\<rparr>"
    by (auto simp: order_repository_create_def Let_def split: option.splits sum.splits)
  with create_rows_accumulates [of "products s" "next_order_id s" "next_item_id s" its "[]" 0 rows tot]
  show ?thesis by (auto simp: accumulated_total_def)
qed

text \<open>
  C2. The stored total_amount of a successfully updated order does not always equal the
  sum of unit_price times quantity over its final items: the update loop adds one term
  per incoming item, also when two incoming items name the same product and so write
  the same row. On the order of two A at 50, the items \<open>[(A, 2), (A, 3)]\<close> leave one row
  of three A, whose sum is 150, and a stored total of 250. (Create always stores the
  sum, \<open>create_stores_items_total\<close>; so does an update when neither the rows nor the
  incoming items repeat a product, \<open>update_replaces_by_key\<close>.)
\<close>

theorem duplicate_incoming_total_mismatch:
  "fst (order_service_update placed 1
          \<lparr>patch_status = None, patch_items = Some [(1, 2), (1, 3)]\<rparr>) =
     Inr (Some \<lparr>ident = 1, user_id = 1, status = ''pending'', total_amount = 250,
            items = [\<lparr>item_id = 1, order_id = 1, product_id = 1, quantity = 3,
                      unit_price = 50\<rparr>]\<rparr>) \<and>
   items_total [\<lparr>item_id = 1, order_id = 1, product_id = 1, quantity = 3,
                  unit_price = 50\<rparr>] = 150"
  by (simp add: order_service_update_def apply_order_fields_def order_repository_update_def
        order_repository_get_by_id_def placed_simps Let_def existing_by_product_def
        deleted_rows_def remaining_rows_def order_a_def prod_a_def items_total_def)

section \<open>Cancellation\<close>

text \<open>
  C3. An update that asks for the status cancelled, on an order that is not cancelled,
  adds to every product the quantities the order's items hold of it, once; on an order
  that is already cancelled it leaves every stock as it is; so after a successful
  cancellation, the same request again changes no stock.
\<close>

theorem cancel_restitution_once:
  assumes found: "order_repository_get_by_id s oid = Some ord"
    and st: "patch_status pt = Some ''cancelled''"
  shows "(status ord \<noteq> ''cancelled'' \<longrightarrow>
            (\<forall>p. products (snd (order_service_update s oid pt)) p =
               map_option
                 (\<lambda>pr. pr\<lparr>stock_quantity := stock_quantity pr + returned_quantity p (items ord)\<rparr>)
                 (products s p))) \<and>
         (status ord = ''cancelled'' \<longrightarrow>
            products (snd (order_service_update s oid pt)) = products s) \<and>
         (\<forall>ord'. fst (order_service_update s oid pt) = Inr (Some ord') \<longrightarrow>
            products (snd (order_service_update (snd (order_service_update s oid pt)) oid pt)) =
            products (snd (order_service_update s oid pt)))"
proof (intro conjI impI allI)
  fix p
  assume "status ord \<noteq> ''cancelled''"
  with found st show "products (snd (order_service_update s oid pt)) p =
      map_option
        (\<lambda>pr. pr\<lparr>stock_quantity := stock_quantity pr + returned_quantity p (items ord)\<rparr>)
        (products s p)"
    by (simp add: order_service_update_def valid_statuses_def apply_fields_products
          restore_stock_products)
next
  assume "status ord = ''cancelled''"
  with found st show "products (snd (order_service_update s oid pt)) = products s"
    by (simp add: order_service_update_def valid_statuses_def apply_fields_products)
next
  fix ord'
  assume ok: "fst (order_service_update s oid pt) = Inr (Some ord')"
  define s0 where "s0 = (if status ord \<noteq> ''cancelled'' then restore_stock s (items ord) else s)"
  define s' where "s' = snd (order_service_update s oid pt)"
  obtain its where pt: "pt = \<lparr>patch_status = Some ''cancelled'', patch_items = its\<rparr>"
    using st by (cases pt) simp
  have id: "ident ord = oid" using found by (rule get_by_id_ident)
  have upd: "order_service_update s oid pt = order_repository_update s0 oid pt"
    unfolding pt order_service_update_def apply_order_fields_def s0_def
    by (simp add: found id valid_statuses_def)
  have found0: "order_repository_get_by_id s0 oid = Some ord"
    using found by (simp add: s0_def order_repository_get_by_id_def)
  have "order_repository_update s0 oid pt =
      (fst (order_service_update s oid pt), snd (order_service_update s oid pt))"
    by (simp add: upd)
  then have "order_repository_update s0 oid pt = (Inr (Some ord'), s')"
    by (simp only: ok s'_def)
  from repo_update_result [OF found0 this]
  have found': "order_repository_get_by_id s' oid = Some ord'" and "status ord' = ''cancelled''"
    by (simp_all add: st)
  then have "products (snd (order_service_update s' oid pt)) = products s'"
    unfolding pt
    by (simp add: order_service_update_def valid_statuses_def apply_fields_products)
  then show "products (snd (order_service_update (snd (order_service_update s oid pt)) oid pt)) =
      products (snd (order_service_update s oid pt))"
    by (simp add: s'_def)
qed

text \<open>Cancelling the order of two A brings the stock of A from 98 back to 100, once.\<close>

theorem cancel_restitution_once_witness:
  "order_repository_get_by_id placed 1 = Some order_a \<and>
   patch_status cancel_only = Some ''cancelled'' \<and>
   status order_a \<noteq> ''cancelled'' \<and>
   map_option stock_quantity (products placed 1) = Some 98 \<and>
   map_option stock_quantity (products (snd (order_service_update placed 1 cancel_only)) 1) =
     Some 100 \<and>
   products (snd (order_service_update (snd (order_service_update placed 1 cancel_only)) 1
                    cancel_only)) =
     products (snd (order_service_update placed 1 cancel_only))"
proof -
  have st: "patch_status cancel_only = Some ''cancelled''" by (simp add: cancel_only_def)
  have ne: "status order_a \<noteq> ''cancelled''" by (simp add: order_a_def)
  note inst = cancel_restitution_once [OF get_placed st]
  from inst ne have "products (snd (order_service_update placed 1 cancel_only)) 1 =
      map_option
        (\<lambda>pr. pr\<lparr>stock_quantity := stock_quantity pr + returned_quantity 1 (items order_a)\<rparr>)
        (products placed 1)"
    by blast
  then have a: "map_option stock_quantity
      (products (snd (order_service_update placed 1 cancel_only)) 1) = Some 100"
    by (simp add: placed_simps returned_quantity_def order_a_def prod_a_def)
  from inst cancel_placed
  have b: "products (snd (order_service_update (snd (order_service_update placed 1 cancel_only)) 1
                    cancel_only)) =
     products (snd (order_service_update placed 1 cancel_only))"
    by blast
  show ?thesis using get_placed st ne a b by (simp add: placed_simps prod_a_def)
qed

section \<open>Stock and item updates\<close>

lemma update_without_cancel_products:
  assumes "patch_status pt \<noteq> Some ''cancelled''"
  shows "products (snd (order_service_update s oid pt)) = products s"
  using assms
  by (auto simp: order_service_update_def apply_fields_products split: option.splits)

lemma delete_products: "products (snd (order_service_delete s oid)) = products s"
  by (simp add: order_service_delete_def order_repository_delete_def split: option.splits)

text \<open>
  C4, as the code has it. An update that does not ask for the status cancelled leaves
  the stock of every product as it is, whatever items it carries, and so does a
  delete: of the order operations only creation and the move to cancelled write stock.
\<close>

theorem item_update_never_touches_stock:
  "(patch_status pt \<noteq> Some ''cancelled'' \<longrightarrow>
      products (snd (order_service_update s oid pt)) = products s) \<and>
   products (snd (order_service_delete s oid)) = products s"
  by (simp add: update_without_cancel_products delete_products)

theorem item_update_never_touches_stock_witness:
  "patch_status \<lparr>patch_status = None, patch_items = Some [(1, 5)]\<rparr> \<noteq> Some ''cancelled'' \<and>
   products (snd (order_service_update placed 1
      \<lparr>patch_status = None, patch_items = Some [(1, 5)]\<rparr>)) = products placed"
  using item_update_never_touches_stock
    [of "\<lparr>patch_status = None, patch_items = Some [(1, 5)]\<rparr>" placed 1]
  by simp

text \<open>
  C4 as stated fails: raising the order of two A to five A succeeds, and the stock of A
  is 98 before and after, where a delta of three would leave 95.
\<close>

theorem item_update_stock_counterexample:
  "fst (order_service_update placed 1 \<lparr>patch_status = None, patch_items = Some [(1, 5)]\<rparr>) =
     Inr (Some \<lparr>ident = 1, user_id = 1, status = ''pending'', total_amount = 250,
            items = [\<lparr>item_id = 1, order_id = 1, product_id = 1, quantity = 5,
                      unit_price = 50\<rparr>]\<rparr>) \<and>
   map_option stock_quantity (products placed 1) = Some 98 \<and>
   map_option stock_quantity
     (products (snd (order_service_update placed 1
        \<lparr>patch_status = None, patch_items = Some [(1, 5)]\<rparr>)) 1) = Some 98"
  by (simp add: update_without_cancel_products placed_simps order_service_update_def
        apply_order_fields_def order_repository_update_def Let_def
        existing_by_product_def prod_a_def deleted_rows_def remaining_rows_def
        get_placed [unfolded order_a_def] order_a_def)

section \<open>Status changes\<close>

text \<open>
  C5, as the code has it. The service checks the requested status against the five
  listed values and nothing else: from any current status, also delivered or
  cancelled, an update to any listed status succeeds and stores it; a status outside
  the list fails with \<open>InvalidStatus\<close> and changes nothing.
\<close>

theorem any_listed_status_accepted:
  assumes found: "order_repository_get_by_id s oid = Some ord"
  shows "(st \<in> set valid_statuses \<longrightarrow>
            (\<exists>s'. order_service_update s oid \<lparr>patch_status = Some st, patch_items = None\<rparr> =
                    (Inr (Some (ord\<lparr>status := st\<rparr>)), s') \<and>
                  order_repository_get_by_id s' oid = Some (ord\<lparr>status := st\<rparr>))) \<and>
         (st \<notin> set valid_statuses \<longrightarrow>
            order_service_update s oid \<lparr>patch_status = Some st, patch_items = its\<rparr> =
              (Inl InvalidStatus, s))"
proof (intro conjI impI)
  assume valid: "st \<in> set valid_statuses"
  define s0 where "s0 =
    (if st = ''cancelled'' \<and> status ord \<noteq> ''cancelled'' then restore_stock s (items ord) else s)"
  have found0: "order_repository_get_by_id s0 oid = Some ord"
    using found by (simp add: s0_def order_repository_get_by_id_def)
  have id: "ident ord = oid" using found by (rule get_by_id_ident)
  have "order_service_update s oid \<lparr>patch_status = Some st, patch_items = None\<rparr> =
      (Inr (Some (ord\<lparr>status := st\<rparr>)), store_order s0 (ord\<lparr>status := st\<rparr>))"
    using found valid id repo_update_status_only [OF found0, of st]
    by (simp add: order_service_update_def apply_order_fields_def s0_def)
  moreover have "order_repository_get_by_id (store_order s0 (ord\<lparr>status := st\<rparr>)) oid =
      Some (ord\<lparr>status := st\<rparr>)"
    using found0 id by (simp add: get_by_id_store_order)
  ultimately show "\<exists>s'. order_service_update s oid \<lparr>patch_status = Some st, patch_items = None\<rparr> =
                    (Inr (Some (ord\<lparr>status := st\<rparr>)), s') \<and>
                  order_repository_get_by_id s' oid = Some (ord\<lparr>status := st\<rparr>)"
    by blast
next
  assume "st \<notin> set valid_statuses"
  with found show "order_service_update s oid \<lparr>patch_status = Some st, patch_items = its\<rparr> =
              (Inl InvalidStatus, s)"
    by (simp add: order_service_update_def)
qed

theorem any_listed_status_accepted_witness:
  "order_repository_get_by_id delivered_db 1 = Some (order_a\<lparr>status := ''delivered''\<rparr>) \<and>
   ''processing'' \<in> set valid_statuses \<and> ''refunded'' \<notin> set valid_statuses \<and>
   fst (order_service_update delivered_db 1
          \<lparr>patch_status = Some ''processing'', patch_items = None\<rparr>) =
     Inr (Some (order_a\<lparr>status := ''processing''\<rparr>)) \<and>
   order_service_update delivered_db 1
          \<lparr>patch_status = Some ''refunded'', patch_items = None\<rparr> =
     (Inl InvalidStatus, delivered_db)"
proof -
  have v: "''processing'' \<in> set valid_statuses" "''refunded'' \<notin> set valid_statuses"
    by (simp_all add: valid_statuses_def)
  from any_listed_status_accepted [OF get_delivered, of "''processing''" None] v
  obtain s' where "order_service_update delivered_db 1
       \<lparr>patch_status = Some ''processing'', patch_items = None\<rparr> =
     (Inr (Some (order_a\<lparr>status := ''delivered'', status := ''processing''\<rparr>)), s')"
    by blast
  moreover from any_listed_status_accepted [OF get_delivered, of "''refunded''" None] v
  have "order_service_update delivered_db 1
          \<lparr>patch_status = Some ''refunded'', patch_items = None\<rparr> =
     (Inl InvalidStatus, delivered_db)" by blast
  ultimately show ?thesis using v get_delivered by simp
qed

text \<open>
  C5 as stated fails: the order, moved from pending straight to delivered, is moved
  back to pending by the next update.
\<close>

theorem delivered_reopened_counterexample:
  "map status (orders placed) = [''pending''] \<and>
   map status (orders delivered_db) = [''delivered''] \<and>
   fst (order_service_update delivered_db 1
          \<lparr>patch_status = Some ''pending'', patch_items = None\<rparr>) =
     Inr (Some (order_a\<lparr>status := ''pending''\<rparr>)) \<and>
   map status (orders (snd (order_service_update delivered_db 1
          \<lparr>patch_status = Some ''pending'', patch_items = None\<rparr>))) = [''pending'']"
  by (simp add: delivered_simps order_service_update_def apply_order_fields_def
        valid_statuses_def order_repository_update_def Let_def store_order_def
        get_delivered [unfolded order_a_def] placed_simps order_a_def)

section \<open>Item reconciliation\<close>

text \<open>
  C6. The reconciliation is not replace-by-key on every input: the dict of existing
  rows holds one row per product, so when an order has two rows of one product (the
  service's create_order accepts an item list that names a product twice) the other
  row is neither updated nor deleted. The order created from \<open>[(A, 1), (A, 2)]\<close> and
  updated to \<open>[(B, 1)]\<close> keeps a row of A beside the new row of B. (When neither the rows
  nor the incoming items repeat a product, the update is \<open>replace_by_key\<close>:
  \<open>update_replaces_by_key\<close>.)
\<close>

theorem duplicate_rows_survive_replace:
  "map (\<lambda>r. (product_id r, quantity r)) (concat (map items (orders twice))) = [(1, 1), (1, 2)] \<and>
   fst (order_service_update twice 1 \<lparr>patch_status = None, patch_items = Some [(2, 1)]\<rparr>) =
     Inr (Some \<lparr>ident = 1, user_id = 1, status = ''pending'', total_amount = 20,
            items = [\<lparr>item_id = 1, order_id = 1, product_id = 1, quantity = 1,
                      unit_price = 50\<rparr>,
                     \<lparr>item_id = 3, order_id = 1, product_id = 2, quantity = 1,
                      unit_price = 20\<rparr>]\<rparr>)"
  by (simp add: order_service_update_def apply_order_fields_def order_repository_update_def
        order_repository_get_by_id_def twice_simps Let_def existing_by_product_def
        deleted_rows_def remaining_rows_def prod_b_def)




section \<open>Listing\<close>

lemma py_slice_nonneg:
  assumes "0 \<le> a" "0 \<le> c"
  shows "py_slice xs a (a + c) = take (nat c) (drop (nat a) xs)"
proof (cases "a < int (length xs)")
  case True
  show ?thesis
  proof (cases "a + c \<le> int (length xs)")
    case True
    with assms \<open>a < int (length xs)\<close> show ?thesis
      by (simp add: py_slice_def Let_def min_def)
  next
    case False
    with assms True have "length (drop (nat a) xs) \<le> nat c" by simp
    with assms True False show ?thesis
      by (simp add: py_slice_def Let_def min_def nat_diff_distrib)
  qed
next
  case False
  with assms show ?thesis
    by (simp add: py_slice_def Let_def min_def)
qed

text \<open>
  C8, as the code has it. While the table holds at most 1000 orders, the fallback path
  returns the same total and the same page as the filtered list of the repository, for
  every filter, every count from 0 and every page from 1.
\<close>

theorem fallback_equals_native_within_bound:
  assumes "length (orders s) \<le> 1000" and "0 \<le> cnt" and "1 \<le> page"
  shows "get_by_filter False s cnt page uid st = get_by_filter True s cnt page uid st"
proof -
  have off: "0 \<le> (page - 1) * cnt" using assms by simp
  have all: "snd (order_repository_list s 1000 0 None None) = orders s"
    using assms(1) by (simp add: order_repository_list_def matching_def Let_def)
  show ?thesis
    unfolding get_by_filter_def Let_def all
    by (simp add: order_repository_list_def matching_def Let_def
          py_slice_nonneg [OF off assms(2)])
qed

theorem fallback_equals_native_within_bound_witness:
  "length (orders three_orders) \<le> 1000 \<and> (0::int) \<le> 10 \<and> (1::int) \<le> 1 \<and>
   get_by_filter False three_orders 10 1 (Some 1) None =
     get_by_filter True three_orders 10 1 (Some 1) None \<and>
   fst (get_by_filter False three_orders 10 1 (Some 1) None) = 2"
proof -
  have len: "length (orders three_orders) \<le> 1000" by (simp add: three_orders_def)
  have "get_by_filter False three_orders 10 1 (Some 1) None =
     get_by_filter True three_orders 10 1 (Some 1) None"
    by (rule fallback_equals_native_within_bound [OF len]) simp_all
  moreover have "fst (get_by_filter True three_orders 10 1 (Some 1) None) = 2"
    by (simp add: get_by_filter_def order_repository_list_def matching_def three_orders_def)
  ultimately show ?thesis using len by simp
qed

text \<open>
  C8 as stated fails: on a table of 1001 orders the repository counts 1001 and the
  fallback, which fetches 1000 rows, counts 1000.
\<close>

theorem fallback_truncates_counterexample:
  "fst (get_by_filter True many_orders 10 1 None None) = 1001 \<and>
   fst (get_by_filter False many_orders 10 1 None None) = 1000"
  by (simp add: get_by_filter_def order_repository_list_def matching_def many_orders_def Let_def)

section \<open>Messages without an order id\<close>

text \<open>
  C9. Whatever the service is and whatever else the payload holds, a payload without
  \<^verbatim>\<open>order_id\<close> makes the handlers of \<^verbatim>\<open>update_status\<close> and \<^verbatim>\<open>update\<close> fail with the
  error \<^verbatim>\<open>order_id is required\<close> and leaves the database as it was; the result does not
  depend on the service, which is not called.
\<close>

theorem missing_order_id_rejected:
  "handle_order_update_status service_update s (data\<lparr>msg_order_id := None\<rparr>) =
     (Inl OrderIdRequired, s) \<and>
   handle_order_update service_update s (data\<lparr>msg_order_id := None\<rparr>) =
     (Inl OrderIdRequired, s) \<and>
   subscribe_order s (Some ''update_status'') (data\<lparr>msg_order_id := None\<rparr>) =
     (Inl OrderIdRequired, s) \<and>
   subscribe_order s (Some ''update'') (data\<lparr>msg_order_id := None\<rparr>) =
     (Inl OrderIdRequired, s)"
  by (simp add: handle_order_update_status_def handle_order_update_def subscribe_order_def)

section \<open>Cancelling when a product is gone\<close>

text \<open>
  C10. Cancelling an order that is not cancelled succeeds also when products of its
  items no longer exist: no error is raised, the stored status becomes cancelled, a
  missing product stays missing, and every existing product gets back the quantities
  the order's items hold of it.
\<close>

theorem cancel_skips_missing_product:
  assumes found: "order_repository_get_by_id s oid = Some ord"
    and st: "status ord \<noteq> ''cancelled''"
  shows "\<exists>s'. order_service_update s oid cancel_only =
                (Inr (Some (ord\<lparr>status := ''cancelled''\<rparr>)), s') \<and>
              order_repository_get_by_id s' oid = Some (ord\<lparr>status := ''cancelled''\<rparr>) \<and>
              (\<forall>p. case products s p of
                     None \<Rightarrow> products s' p = None
                   | Some pr \<Rightarrow>
                       products s' p =
                         Some (pr\<lparr>stock_quantity :=
                                  stock_quantity pr + returned_quantity p (items ord)\<rparr>))"
proof -
  define s0 where "s0 = restore_stock s (items ord)"
  have found0: "order_repository_get_by_id s0 oid = Some ord"
    using found by (simp add: s0_def order_repository_get_by_id_def)
  have id: "ident ord = oid" using found by (rule get_by_id_ident)
  have upd: "order_service_update s oid cancel_only =
      (Inr (Some (ord\<lparr>status := ''cancelled''\<rparr>)), store_order s0 (ord\<lparr>status := ''cancelled''\<rparr>))"
    using found st id repo_update_status_only [OF found0, of "''cancelled''"]
    by (simp add: order_service_update_def cancel_only_def valid_statuses_def
          apply_order_fields_def s0_def)
  have "order_repository_get_by_id (store_order s0 (ord\<lparr>status := ''cancelled''\<rparr>)) oid =
      Some (ord\<lparr>status := ''cancelled''\<rparr>)"
    using found0 id by (simp add: get_by_id_store_order)
  moreover have "\<forall>p. case products s p of
        None \<Rightarrow> products (store_order s0 (ord\<lparr>status := ''cancelled''\<rparr>)) p = None
      | Some pr \<Rightarrow> products (store_order s0 (ord\<lparr>status := ''cancelled''\<rparr>)) p =
          Some (pr\<lparr>stock_quantity := stock_quantity pr + returned_quantity p (items ord)\<rparr>)"
    by (simp add: s0_def restore_stock_products split: option.splits)
  ultimately show ?thesis using upd by blast
qed

text \<open>
  The order of two A and one B is cancelled although B is gone: A goes from 98 to 100,
  B stays absent.
\<close>

theorem cancel_skips_missing_product_witness:
  "order_repository_get_by_id orphaned 1 = Some order_ab \<and>
   status order_ab \<noteq> ''cancelled'' \<and>
   products orphaned 2 = None \<and>
   fst (order_service_update orphaned 1 cancel_only) =
     Inr (Some (order_ab\<lparr>status := ''cancelled''\<rparr>)) \<and>
   products (snd (order_service_update orphaned 1 cancel_only)) 2 = None \<and>
   map_option stock_quantity (products (snd (order_service_update orphaned 1 cancel_only)) 1) =
     Some 100"
proof -
  have g: "order_repository_get_by_id orphaned 1 = Some order_ab"
    by (simp add: order_repository_get_by_id_def orphaned_def order_ab_def)
  have ne: "status order_ab \<noteq> ''cancelled''" by (simp add: order_ab_def)
  have p1: "products orphaned 1 = Some (prod_a\<lparr>stock_quantity := 98\<rparr>)"
    and p2: "products orphaned 2 = None"
    by (simp_all add: orphaned_def)
  from cancel_skips_missing_product [OF g ne]
  obtain s' where upd: "order_service_update orphaned 1 cancel_only =
      (Inr (Some (order_ab\<lparr>status := ''cancelled''\<rparr>)), s')"
    and ps: "\<forall>p. case products orphaned p of
                 None \<Rightarrow> products s' p = None
               | Some pr \<Rightarrow> products s' p =
                   Some (pr\<lparr>stock_quantity :=
                            stock_quantity pr + returned_quantity p (items order_ab)\<rparr>)"
    by blast
  from ps [rule_format, of 2] p2 have "products s' 2 = None" by simp
  moreover from ps [rule_format, of 1] p1
  have "map_option stock_quantity (products s' 1) = Some 100"
    by (simp add: returned_quantity_def order_ab_def prod_a_def)
  ultimately show ?thesis using g ne p2 upd by simp
qed

end
